theory Spec2Isabelle
  imports Main "HOL-Library.Word"
begin

unbundle bit_operations_syntax

section \<open>Block source (internal/disk/reader.go)\<close>

type_synonym byte = "8 word"

text \<open>
  Go's \<open>io.EOF\<close> is kept apart from every other read error, because the engines treat
  the two differently.
\<close>

datatype io_error = EOF | IOError

text \<open>
  \<open>disk.Reader\<close>: the total size and the positional read. \<open>Reader_ReadAt r len off\<close>
  stands for \<open>r.ReadAt(buf, off)\<close> with \<open>len(buf) = len\<close>; it returns the bytes that
  were read (the source's \<open>n\<close> is their number) and the error.
\<close>

record Reader =
  Reader_size :: int
  Reader_ReadAt :: "nat \<Rightarrow> int \<Rightarrow> byte list \<times> io_error option"

text \<open>
  A reader opened on a regular file with content \<open>dev\<close>. \<open>os.File.ReadAt\<close> rejects a
  negative offset, reads until the buffer is full or the file ends, and returns
  \<open>io.EOF\<close> exactly when fewer bytes than requested were read.
\<close>

definition file_Reader :: "byte list \<Rightarrow> Reader" where
  "file_Reader dev =
     \<lparr>Reader_size = int (length dev),
      Reader_ReadAt = (\<lambda>len off.
         if off < 0 then ([], Some IOError)
         else let bs = take len (drop (nat off) dev)
              in (bs, if length bs < len then Some EOF else None))\<rparr>"

section \<open>Signature carver (internal/carver/carver.go)\<close>

record FileSignature =
  sig_Name :: string
  sig_Extension :: string
  sig_Header :: "byte list"
  sig_Footer :: "byte list"
  sig_MaxSize :: int
  sig_Offset :: int

record CarvedFile =
  cf_Signature :: FileSignature
  cf_Offset :: int
  cf_Size :: int
  cf_Path :: string

record Carver =
  carver_reader :: Reader
  carver_bufSize :: int
  carver_signatures :: "FileSignature list"

definition mk_sig :: "string \<Rightarrow> string \<Rightarrow> byte list \<Rightarrow> byte list \<Rightarrow> int \<Rightarrow> FileSignature" where
  "mk_sig nm ext hdr ftr mx =
     \<lparr>sig_Name = nm, sig_Extension = ext, sig_Header = hdr, sig_Footer = ftr,
      sig_MaxSize = mx, sig_Offset = 0\<rparr>"

definition MiB :: int where
  "MiB = 1024 * 1024"

definition Signatures :: "FileSignature list" where
  "Signatures =
    [mk_sig ''JPEG'' ''.jpg'' [0xFF, 0xD8, 0xFF] [0xFF, 0xD9] (50 * MiB),
     mk_sig ''PNG'' ''.png'' [0x89, 0x50, 0x4E, 0x47, 0x0D, 0x0A, 0x1A, 0x0A]
       [0x49, 0x45, 0x4E, 0x44, 0xAE, 0x42, 0x60, 0x82] (50 * MiB),
     mk_sig ''GIF'' ''.gif'' [0x47, 0x49, 0x46, 0x38] [0x00, 0x3B] (20 * MiB),
     mk_sig ''BMP'' ''.bmp'' [0x42, 0x4D] [] (50 * MiB),
     mk_sig ''WEBP'' ''.webp'' [0x52, 0x49, 0x46, 0x46] [] (50 * MiB),
     mk_sig ''TIFF'' ''.tiff'' [0x49, 0x49, 0x2A, 0x00] [] (100 * MiB),
     mk_sig ''TIFF-BE'' ''.tiff'' [0x4D, 0x4D, 0x00, 0x2A] [] (100 * MiB),
     mk_sig ''MP4'' ''.mp4'' [0x00, 0x00, 0x00] [] (4 * 1024 * MiB),
     mk_sig ''AVI'' ''.avi'' [0x52, 0x49, 0x46, 0x46] [] (4 * 1024 * MiB),
     mk_sig ''MKV'' ''.mkv'' [0x1A, 0x45, 0xDF, 0xA3] [] (4 * 1024 * MiB),
     mk_sig ''MOV'' ''.mov'' [0x00, 0x00, 0x00, 0x14, 0x66, 0x74, 0x79, 0x70] [] (4 * 1024 * MiB),
     mk_sig ''WMV'' ''.wmv'' [0x30, 0x26, 0xB2, 0x75, 0x8E, 0x66, 0xCF, 0x11] [] (4 * 1024 * MiB),
     mk_sig ''FLV'' ''.flv'' [0x46, 0x4C, 0x56, 0x01] [] (2 * 1024 * MiB),
     mk_sig ''MP3'' ''.mp3'' [0xFF, 0xFB] [] (100 * MiB),
     mk_sig ''MP3-ID3'' ''.mp3'' [0x49, 0x44, 0x33] [] (100 * MiB),
     mk_sig ''WAV'' ''.wav'' [0x52, 0x49, 0x46, 0x46] [] (500 * MiB),
     mk_sig ''FLAC'' ''.flac'' [0x66, 0x4C, 0x61, 0x43] [] (500 * MiB),
     mk_sig ''OGG'' ''.ogg'' [0x4F, 0x67, 0x67, 0x53] [] (200 * MiB),
     mk_sig ''M4A'' ''.m4a'' [0x00, 0x00, 0x00, 0x20, 0x66, 0x74, 0x79, 0x70, 0x4D, 0x34, 0x41] []
       (500 * MiB),
     mk_sig ''PDF'' ''.pdf'' [0x25, 0x50, 0x44, 0x46] [0x25, 0x25, 0x45, 0x4F, 0x46] (500 * MiB),
     mk_sig ''DOCX'' ''.docx'' [0x50, 0x4B, 0x03, 0x04] [] (100 * MiB),
     mk_sig ''XLSX'' ''.xlsx'' [0x50, 0x4B, 0x03, 0x04] [] (100 * MiB),
     mk_sig ''PPTX'' ''.pptx'' [0x50, 0x4B, 0x03, 0x04] [] (500 * MiB),
     mk_sig ''ZIP'' ''.zip'' [0x50, 0x4B, 0x03, 0x04] [] (1024 * MiB),
     mk_sig ''RAR'' ''.rar'' [0x52, 0x61, 0x72, 0x21, 0x1A, 0x07] [] (1024 * MiB),
     mk_sig ''7Z'' ''.7z'' [0x37, 0x7A, 0xBC, 0xAF, 0x27, 0x1C] [] (1024 * MiB),
     mk_sig ''EXE'' ''.exe'' [0x4D, 0x5A] [] (500 * MiB),
     mk_sig ''ELF'' ''.elf'' [0x7F, 0x45, 0x4C, 0x46] [] (500 * MiB),
     mk_sig ''SQLite'' ''.sqlite''
       [0x53, 0x51, 0x4C, 0x69, 0x74, 0x65, 0x20, 0x66, 0x6F, 0x72, 0x6D, 0x61, 0x74] []
       (1024 * MiB)]"

definition NewCarver :: "Reader \<Rightarrow> Carver" where
  "NewCarver reader =
     \<lparr>carver_reader = reader, carver_bufSize = 1024 * 1024, carver_signatures = Signatures\<rparr>"

definition SetSignatures :: "Carver \<Rightarrow> FileSignature list \<Rightarrow> Carver" where
  "SetSignatures c sigs = c\<lparr>carver_signatures := sigs\<rparr>"

text \<open>
  The scan buffer is reused between reads, but the loops below only look at its first
  \<open>n\<close> bytes, so the model's \<open>buf\<close> is the list of the \<open>n\<close> bytes just read.
\<close>

definition ftyp :: "byte list" where
  "ftyp = [0x66, 0x74, 0x79, 0x70]"

text \<open>The body of \<open>for _, sig := range c.signatures\<close> at buffer position \<open>i\<close>.\<close>

fun scan_sigs :: "byte list \<Rightarrow> int \<Rightarrow> nat \<Rightarrow> FileSignature list \<Rightarrow> CarvedFile list
    \<Rightarrow> CarvedFile list" where
  "scan_sigs buf offset i [] files = files"
| "scan_sigs buf offset i (sig # sigs) files =
     (if int (length (sig_Header sig)) > int (length buf) - int i
      then scan_sigs buf offset i sigs files
      else if take (length (sig_Header sig)) (drop i buf) = sig_Header sig
      then (if sig_Name sig = ''MP4'' \<and> i + 8 < length buf \<and> take 4 (drop (i + 4) buf) \<noteq> ftyp
            then scan_sigs buf offset i sigs files
            else scan_sigs buf offset i sigs
                   (files @ [\<lparr>cf_Signature = sig, cf_Offset = offset + int i,
                              cf_Size = sig_MaxSize sig, cf_Path = []\<rparr>]))
      else scan_sigs buf offset i sigs files)"

definition searchEnd_of :: "int \<Rightarrow> int" where
  "searchEnd_of n = (let searchEnd = n - 64 in if searchEnd < 0 then n else searchEnd)"

text \<open>The positions \<open>i\<close> visited by \<open>for i := 0; i < searchEnd; i++\<close>.\<close>

definition search_positions :: "int \<Rightarrow> nat list" where
  "search_positions n = [0 ..< nat (searchEnd_of n)]"

definition scan_buffer :: "FileSignature list \<Rightarrow> byte list \<Rightarrow> int \<Rightarrow> CarvedFile list
    \<Rightarrow> CarvedFile list" where
  "scan_buffer sigs buf offset files =
     fold (\<lambda>i fs. scan_sigs buf offset i sigs fs) (search_positions (int (length buf))) files"

definition advance_of :: "int \<Rightarrow> int \<Rightarrow> int" where
  "advance_of n overlap = (let advance = n - overlap in if advance \<le> 0 then n else advance)"

text \<open>
  One iteration of \<open>for offset < diskSize\<close>, entered with \<open>offset < diskSize\<close>:
  \<open>Inl\<close> is the value \<open>Scan\<close> returns when the loop is left, \<open>Inr\<close> the cursor and the
  hits of the next iteration.
\<close>

definition Scan_step :: "Reader \<Rightarrow> FileSignature list \<Rightarrow> nat \<Rightarrow> int \<Rightarrow> int \<Rightarrow> CarvedFile list
    \<Rightarrow> (io_error + CarvedFile list) + (int \<times> CarvedFile list)" where
  "Scan_step r sigs bufSize overlap offset files =
     (case Reader_ReadAt r bufSize offset of (buf, err) \<Rightarrow>
        if err \<noteq> None \<and> err \<noteq> Some EOF then Inl (Inl IOError)
        else if length buf = 0 then Inl (Inr files)
        else Inr (offset + advance_of (int (length buf)) overlap,
                  scan_buffer sigs buf offset files))"

partial_function (option) Scan_loop :: "Reader \<Rightarrow> FileSignature list \<Rightarrow> int \<Rightarrow> nat \<Rightarrow> int
    \<Rightarrow> int \<Rightarrow> CarvedFile list \<Rightarrow> (io_error + CarvedFile list) option" where
  "Scan_loop r sigs diskSize bufSize overlap offset files =
     (if offset < diskSize
      then (case Scan_step r sigs bufSize overlap offset files of
              Inl res \<Rightarrow> Some res
            | Inr (offset', files') \<Rightarrow> Scan_loop r sigs diskSize bufSize overlap offset' files')
      else Some (Inr files))"

definition Scan :: "Carver \<Rightarrow> (io_error + CarvedFile list) option" where
  "Scan c =
     (let diskSize = Reader_size (carver_reader c);
          bufSize = (if diskSize < carver_bufSize c then diskSize else carver_bufSize c);
          bufSize = (if bufSize < 128 then 128 else bufSize);
          overlap = (if 1024 > bufSize div 2 then 0 else 1024)
      in Scan_loop (carver_reader c) (carver_signatures c) diskSize (nat bufSize) overlap 0 [])"


text \<open>\<open>bytes.Index(s, sep)\<close>: the first position of \<open>sep\<close> in \<open>s\<close>, \<open>None\<close> for -1.\<close>

fun bytes_Index :: "byte list \<Rightarrow> byte list \<Rightarrow> nat option" where
  "bytes_Index [] sep = (if sep = [] then Some 0 else None)"
| "bytes_Index (x # xs) sep =
     (if take (length sep) (x # xs) = sep then Some 0
      else map_option Suc (bytes_Index xs sep))"

text \<open>
  One iteration of \<open>for written < maxSize\<close> in \<open>RecoverFile\<close>, entered with
  \<open>written < maxSize\<close>. The state is the output file's content, \<open>written\<close> and
  \<open>offset\<close>; \<open>Inl\<close> is the state when the loop is left.
\<close>

definition RecoverFile_step :: "Reader \<Rightarrow> FileSignature \<Rightarrow> int \<Rightarrow> byte list \<times> int \<times> int
    \<Rightarrow> (byte list \<times> int \<times> int) + (byte list \<times> int \<times> int)" where
  "RecoverFile_step r sig maxSize st =
     (case st of (out, written, offset) \<Rightarrow>
        let toRead = min 65536 (maxSize - written) in
        case Reader_ReadAt r (nat toRead) offset of (buf, err) \<Rightarrow>
          if err \<noteq> None \<and> err \<noteq> Some EOF then Inl (out, written, offset)
          else if length buf = 0 then Inl (out, written, offset)
          else if length (sig_Footer sig) > 0 \<and> bytes_Index buf (sig_Footer sig) \<noteq> None
          then (let idx = the (bytes_Index buf (sig_Footer sig)) in
                Inl (out @ take (idx + length (sig_Footer sig)) buf,
                     written + int (idx + length (sig_Footer sig)), offset))
          else Inr (out @ buf, written + int (length buf), offset + int (length buf)))"

function RecoverFile_loop :: "Reader \<Rightarrow> FileSignature \<Rightarrow> int \<Rightarrow> byte list \<times> int \<times> int
    \<Rightarrow> byte list \<times> int \<times> int" where
  "RecoverFile_loop r sig maxSize st =
     (if fst (snd st) < maxSize
      then (case RecoverFile_step r sig maxSize st of
              Inl st' \<Rightarrow> st'
            | Inr st' \<Rightarrow> RecoverFile_loop r sig maxSize st')
      else st)"
  by pat_completeness auto

lemma RecoverFile_step_progress:
  "RecoverFile_step r sig maxSize st = Inr st' \<Longrightarrow> fst (snd st) < fst (snd st')"
  by (auto simp: RecoverFile_step_def Let_def split: prod.splits if_splits)

termination RecoverFile_loop
proof (relation "measure (\<lambda>(r, sig, maxSize, st). nat (maxSize - fst (snd st)))", goal_cases)
  case 1
  show ?case by simp
next
  case (2 r sig maxSize st st')
  from 2(2) have "fst (snd st) < fst (snd st')"
    by (auto dest: RecoverFile_step_progress)
  with 2(1) show ?case by simp
qed

declare RecoverFile_loop.simps [simp del]

text \<open>
  \<open>RecoverFile\<close>, on the path where the output directory and file are created: the
  content of the output file. A \<open>MaxSize\<close> of 0 selects the 10 MiB default.
\<close>

definition RecoverFile :: "Carver \<Rightarrow> CarvedFile \<Rightarrow> byte list" where
  "RecoverFile c file =
     (let maxSize = sig_MaxSize (cf_Signature file);
          maxSize = (if maxSize = 0 then 10 * 1024 * 1024 else maxSize)
      in fst (RecoverFile_loop (carver_reader c) (cf_Signature file) maxSize
                ([], 0, cf_Offset file)))"


text \<open>
  The contract of \<open>io.ReaderAt\<close>: a read never returns more bytes than the buffer holds.
\<close>

definition ReaderAt_contract :: "Reader \<Rightarrow> bool" where
  "ReaderAt_contract r = (\<forall>len off. length (fst (Reader_ReadAt r len off)) \<le> len)"

subsection \<open>Concrete carver inputs\<close>

definition jpeg_only :: "FileSignature list" where
  "jpeg_only = [mk_sig ''JPEG'' ''.jpg'' [0xFF, 0xD8, 0xFF] [0xFF, 0xD9] (50 * MiB)]"

text \<open>
  A reader over a 4096-byte device that returns at most two bytes per read, and one that
  returns nothing.
\<close>

definition short_Reader :: Reader where
  "short_Reader =
     \<lparr>Reader_size = 4096, Reader_ReadAt = (\<lambda>len off. (replicate (min len 2) 0, None))\<rparr>"

definition empty_Reader :: Reader where
  "empty_Reader = \<lparr>Reader_size = 4096, Reader_ReadAt = (\<lambda>len off. ([], None))\<rparr>"

definition jpeg_image :: "byte list" where
  "jpeg_image = [0xFF, 0xD8, 0xFF, 0xE0] @ replicate 10 0x42 @ [0xFF, 0xD9] @ replicate 8 0"

definition jpeg_hit :: "int \<Rightarrow> CarvedFile" where
  "jpeg_hit mx =
     \<lparr>cf_Signature = mk_sig ''JPEG'' ''.jpg'' [0xFF, 0xD8, 0xFF] [0xFF, 0xD9] mx,
      cf_Offset = 0, cf_Size = mx, cf_Path = []\<rparr>"

section \<open>Byte decoding shared by the parsers\<close>

text \<open>
  \<open>binary.LittleEndian.Uint16/32/64\<close> on the bytes of \<open>b\<close> from position \<open>i\<close>. The
  callers below keep the positions inside the slice, or are modelled with the panic that
  Go raises otherwise.
\<close>

definition Uint16 :: "byte list \<Rightarrow> nat \<Rightarrow> 16 word" where
  "Uint16 b i = ucast (b ! i) OR push_bit 8 (ucast (b ! (i + 1)))"

definition Uint32 :: "byte list \<Rightarrow> nat \<Rightarrow> 32 word" where
  "Uint32 b i = ucast (b ! i) OR push_bit 8 (ucast (b ! (i + 1)))
     OR push_bit 16 (ucast (b ! (i + 2))) OR push_bit 24 (ucast (b ! (i + 3)))"

definition Uint64 :: "byte list \<Rightarrow> nat \<Rightarrow> 64 word" where
  "Uint64 b i = ucast (b ! i) OR push_bit 8 (ucast (b ! (i + 1)))
     OR push_bit 16 (ucast (b ! (i + 2))) OR push_bit 24 (ucast (b ! (i + 3)))
     OR push_bit 32 (ucast (b ! (i + 4))) OR push_bit 40 (ucast (b ! (i + 5)))
     OR push_bit 48 (ucast (b ! (i + 6))) OR push_bit 56 (ucast (b ! (i + 7)))"

text \<open>
  \<open>buf := make([]byte, len)\<close> followed by a read into it: the bytes read, then the
  zeros the buffer was created with.
\<close>

definition read_into :: "nat \<Rightarrow> byte list \<Rightarrow> byte list" where
  "read_into len bs = take len bs @ replicate (len - length bs) 0"

text \<open>
  Go strings are byte sequences. \<open>utf16.Decode\<close> turns UTF-16 code units into runes
  (an unpaired surrogate becomes U+FFFD), and the conversion \<open>string(runes)\<close> writes the
  runes in UTF-8.
\<close>

type_synonym gostring = "byte list"

definition is_surrogate :: "16 word \<Rightarrow> bool" where
  "is_surrogate r = (0xD800 \<le> r \<and> r < 0xE000)"

definition is_high_surrogate :: "16 word \<Rightarrow> bool" where
  "is_high_surrogate r = (0xD800 \<le> r \<and> r < 0xDC00)"

definition is_low_surrogate :: "16 word \<Rightarrow> bool" where
  "is_low_surrogate r = (0xDC00 \<le> r \<and> r < 0xE000)"

definition DecodeRune :: "16 word \<Rightarrow> 16 word \<Rightarrow> nat" where
  "DecodeRune r1 r2 = (unat r1 - 0xD800) * 1024 + (unat r2 - 0xDC00) + 0x10000"

fun utf16_Decode :: "16 word list \<Rightarrow> nat list" where
  "utf16_Decode [] = []"
| "utf16_Decode [r] = [if is_surrogate r then 0xFFFD else unat r]"
| "utf16_Decode (r1 # r2 # rs) =
     (if \<not> is_surrogate r1 then unat r1 # utf16_Decode (r2 # rs)
      else if is_high_surrogate r1 \<and> is_low_surrogate r2 then DecodeRune r1 r2 # utf16_Decode rs
      else 0xFFFD # utf16_Decode (r2 # rs))"

definition utf8_rune :: "nat \<Rightarrow> byte list" where
  "utf8_rune r =
     (if r < 0x80 then [of_nat r]
      else if r < 0x800 then [of_nat (0xC0 + r div 64), of_nat (0x80 + r mod 64)]
      else if 0x10FFFF < r \<or> (0xD800 \<le> r \<and> r < 0xE000) then [0xEF, 0xBF, 0xBD]
      else if r < 0x10000
      then [of_nat (0xE0 + r div 4096), of_nat (0x80 + r div 64 mod 64), of_nat (0x80 + r mod 64)]
      else [of_nat (0xF0 + r div 262144), of_nat (0x80 + r div 4096 mod 64),
            of_nat (0x80 + r div 64 mod 64), of_nat (0x80 + r mod 64)])"

definition string_of_runes :: "nat list \<Rightarrow> gostring" where
  "string_of_runes rs = concat (map utf8_rune rs)"

section \<open>FAT32 parser (internal/fat32/fat32.go)\<close>

text \<open>The fields of the boot sector that \<open>readBootSector\<close> fills in.\<close>

record BootSector =
  BytesPerSector :: "16 word"
  SectorsPerCluster :: "8 word"
  ReservedSectors :: "16 word"
  NumFATs :: "8 word"
  TotalSectors32 :: "32 word"
  FATSize32 :: "32 word"
  RootCluster :: "32 word"

record RecoveredFile =
  rf_Name :: gostring
  rf_LongName :: gostring
  rf_Path :: gostring
  rf_FirstCluster :: "32 word"
  rf_Size :: "32 word"
  rf_IsDirectory :: bool
  rf_IsDeleted :: bool

record Parser =
  reader :: Reader
  bootSector :: BootSector
  fatStart :: int
  dataStart :: int
  clusterSz :: int
  fatTable :: "32 word list"

datatype fat32_error = BootSectorReadFailed io_error | FATReadFailed io_error

text \<open>
  \<open>readBootSector\<close> and \<open>NewParser\<close>: the only failure is the failure of the 512-byte
  read at offset 0. The 64-bit products cannot overflow: the factors are 8-, 16- and
  32-bit fields.
\<close>

definition readBootSector :: "Reader \<Rightarrow> fat32_error + Parser" where
  "readBootSector r =
     (case Reader_ReadAt r 512 0 of (bs, err) \<Rightarrow>
        (case err of
           Some e \<Rightarrow> Inl (BootSectorReadFailed e)
         | None \<Rightarrow>
            let buf = read_into 512 bs;
                boot = \<lparr>BytesPerSector = Uint16 buf 11, SectorsPerCluster = buf ! 13,
                        ReservedSectors = Uint16 buf 14, NumFATs = buf ! 16,
                        TotalSectors32 = Uint32 buf 32, FATSize32 = Uint32 buf 36,
                        RootCluster = Uint32 buf 44\<rparr>;
                fatStart = uint (ReservedSectors boot) * uint (BytesPerSector boot);
                fatSize = uint (FATSize32 boot) * uint (BytesPerSector boot)
            in Inr \<lparr>reader = r, bootSector = boot, fatStart = fatStart,
                    dataStart = fatStart + uint (NumFATs boot) * fatSize,
                    clusterSz = uint (SectorsPerCluster boot) * uint (BytesPerSector boot),
                    fatTable = []\<rparr>))"

definition NewParser :: "Reader \<Rightarrow> fat32_error + Parser" where
  "NewParser r = (case readBootSector r of Inl err \<Rightarrow> Inl err | Inr p \<Rightarrow> Inr p)"

definition loadFAT :: "Parser \<Rightarrow> fat32_error + Parser" where
  "loadFAT p =
     (let fatSize = nat (uint (FATSize32 (bootSector p)) * uint (BytesPerSector (bootSector p)))
      in case Reader_ReadAt (reader p) fatSize (fatStart p) of (bs, err) \<Rightarrow>
        (case err of
           Some e \<Rightarrow> Inl (FATReadFailed e)
         | None \<Rightarrow>
            let buf = read_into fatSize bs
            in Inr (p\<lparr>fatTable := map (\<lambda>i. Uint32 buf (i * 4)) [0 ..< fatSize div 4]\<rparr>)))"

text \<open>
  \<open>cluster - 2\<close> is a 32-bit unsigned subtraction (it wraps below 2) and is widened to
  64 bits before the multiplication.
\<close>

definition clusterToOffset :: "Parser \<Rightarrow> 32 word \<Rightarrow> int" where
  "clusterToOffset p cluster = dataStart p + uint (cluster - 2) * clusterSz p"

definition readCluster :: "Parser \<Rightarrow> 32 word \<Rightarrow> io_error + byte list" where
  "readCluster p cluster =
     (case Reader_ReadAt (reader p) (nat (clusterSz p)) (clusterToOffset p cluster) of
        (bs, err) \<Rightarrow>
          (case err of Some e \<Rightarrow> Inl e | None \<Rightarrow> Inr (read_into (nat (clusterSz p)) bs)))"

text \<open>The three loops of \<open>parseLFNEntry\<close>: up to \<open>k\<close> code units from byte \<open>pos\<close>.\<close>

fun lfn_units :: "byte list \<Rightarrow> nat \<Rightarrow> nat \<Rightarrow> 16 word list" where
  "lfn_units entry pos 0 = []"
| "lfn_units entry pos (Suc k) =
     (let c = Uint16 entry pos
      in if c = 0 \<or> c = 0xFFFF then [] else c # lfn_units entry (pos + 2) k)"

definition parseLFNEntry :: "byte list \<Rightarrow> gostring" where
  "parseLFNEntry entry =
     string_of_runes (utf16_Decode (lfn_units entry 1 5 @ lfn_units entry 14 6 @ lfn_units entry 28 2))"

text \<open>\<open>strings.TrimRight(s, " ")\<close>.\<close>

definition TrimRight_space :: "gostring \<Rightarrow> gostring" where
  "TrimRight_space s = rev (dropWhile (\<lambda>b. b = 0x20) (rev s))"

definition parseShortName :: "byte list \<Rightarrow> bool \<Rightarrow> gostring" where
  "parseShortName name isDeleted =
     (let baseName = TrimRight_space (take 8 name);
          ext = TrimRight_space (take 3 (drop 8 name));
          baseName = (if isDeleted \<and> length baseName > 0 then 0x3F # drop 1 baseName else baseName)
      in if ext \<noteq> [] then baseName @ [0x2E] @ ext else baseName)"

text \<open>
  The directory walk. The list of files found and the visited set are shared by all
  recursive calls, so they are threaded through as a state. A call returns the state
  together with how it ended: normally, with the read error it returns, or with the
  panic of the slice expression \<open>data[i : i+DirEntrySize]\<close> when a cluster does not
  hold a whole number of 32-byte entries. The first argument bounds the number of loop
  iterations and calls; \<open>None\<close> means that the bound was too small.
  \<open>filepath.Join\<close> is the argument \<open>join\<close>.
\<close>

record scan_state =
  st_files :: "RecoveredFile list"
  st_visited :: "32 word set"

datatype scan_end = Returned | ReturnedError io_error | Panicked

text \<open>
  The part of the slot loop's body that handles a base entry: the record built from the
  entry and the pending long-name parts, or \<open>None\<close> for the \<open>.\<close> and \<open>..\<close> entries,
  which are skipped.
\<close>

definition entry_file :: "(gostring \<Rightarrow> gostring \<Rightarrow> gostring) \<Rightarrow> gostring \<Rightarrow> gostring list
    \<Rightarrow> byte list \<Rightarrow> RecoveredFile option" where
  "entry_file join path lfnParts entry =
     (let isDeleted = (entry ! 0 = 0xE5);
          isDir = (entry ! 11 AND 0x10 \<noteq> 0);
          firstCluster = ucast (Uint16 entry 26) OR push_bit 16 (ucast (Uint16 entry 20));
          fileSize = Uint32 entry 28;
          shortName = parseShortName (take 11 entry) isDeleted;
          longName = concat lfnParts;
          name = (if longName = [] then shortName else longName)
      in if name = [0x2E] \<or> name = [0x2E, 0x2E] then None
         else Some \<lparr>rf_Name = shortName, rf_LongName = longName, rf_Path = join path name,
                    rf_FirstCluster = firstCluster, rf_Size = fileSize, rf_IsDirectory = isDir,
                    rf_IsDeleted = isDeleted\<rparr>)"

definition add_deleted :: "RecoveredFile \<Rightarrow> scan_state \<Rightarrow> scan_state" where
  "add_deleted file st =
     (if rf_IsDeleted file then st\<lparr>st_files := st_files st @ [file]\<rparr> else st)"

definition descends :: "RecoveredFile \<Rightarrow> bool" where
  "descends file = (rf_IsDirectory file \<and> \<not> rf_IsDeleted file \<and> rf_FirstCluster file \<ge> 2)"

text \<open>What the body of the slot loop does with the entry at byte \<open>i\<close> of the cluster.\<close>

datatype slot =
    SliceOutOfRange
  | EndOfDirectory
  | LfnSlot "gostring list"
  | VolumeLabel
  | BaseEntry "RecoveredFile option"

definition slot_at :: "(gostring \<Rightarrow> gostring \<Rightarrow> gostring) \<Rightarrow> gostring \<Rightarrow> gostring list
    \<Rightarrow> byte list \<Rightarrow> nat \<Rightarrow> slot" where
  "slot_at join path lfnParts data i =
     (if length data < i + 32 then SliceOutOfRange
      else
        let entry = take 32 (drop i data) in
        if entry ! 0 = 0x00 then EndOfDirectory
        else if entry ! 11 = 0x0F
        then LfnSlot (parseLFNEntry entry # (if entry ! 0 AND 0x40 \<noteq> 0 then [] else lfnParts))
        else if entry ! 11 AND 0x08 \<noteq> 0 then VolumeLabel
        else BaseEntry (entry_file join path lfnParts entry))"

fun scanDirectory :: "nat \<Rightarrow> (gostring \<Rightarrow> gostring \<Rightarrow> gostring) \<Rightarrow> Parser \<Rightarrow> 32 word \<Rightarrow> gostring
      \<Rightarrow> scan_state \<Rightarrow> (scan_state \<times> scan_end) option"
  and scan_entries :: "nat \<Rightarrow> (gostring \<Rightarrow> gostring \<Rightarrow> gostring) \<Rightarrow> Parser \<Rightarrow> byte list \<Rightarrow> nat
      \<Rightarrow> gostring \<Rightarrow> gostring list \<Rightarrow> scan_state \<Rightarrow> (scan_state \<times> scan_end) option" where
  "scanDirectory 0 join p cluster path st = None"
| "scanDirectory (Suc n) join p cluster path st =
     (if cluster \<noteq> 0 \<and> cluster < 0x0FFFFFF8 then
        if cluster \<in> st_visited st then Some (st, Returned)
        else
          case readCluster p cluster of
            Inl err \<Rightarrow>
              Some (st\<lparr>st_visited := insert cluster (st_visited st)\<rparr>, ReturnedError err)
          | Inr data \<Rightarrow>
             (case scan_entries n join p data 0 path []
                     (st\<lparr>st_visited := insert cluster (st_visited st)\<rparr>) of
                None \<Rightarrow> None
              | Some r \<Rightarrow>
                 if snd r = Panicked then Some r
                 else if unat cluster < length (fatTable p)
                 then scanDirectory n join p (fatTable p ! unat cluster) path (fst r)
                 else Some (fst r, Returned))
      else Some (st, Returned))"
| "scan_entries 0 join p data i path lfnParts st = None"
| "scan_entries (Suc n) join p data i path lfnParts st =
     (if i < length data then
        case slot_at join path lfnParts data i of
          SliceOutOfRange \<Rightarrow> Some (st, Panicked)
        | EndOfDirectory \<Rightarrow> Some (st, Returned)
        | LfnSlot parts \<Rightarrow> scan_entries n join p data (i + 32) path parts st
        | VolumeLabel \<Rightarrow> scan_entries n join p data (i + 32) path lfnParts st
        | BaseEntry None \<Rightarrow> scan_entries n join p data (i + 32) path [] st
        | BaseEntry (Some file) \<Rightarrow>
           if descends file then
             case scanDirectory n join p (rf_FirstCluster file) (rf_Path file)
                    (add_deleted file st) of
               None \<Rightarrow> None
             | Some r \<Rightarrow>
                if snd r = Panicked then Some r
                else scan_entries n join p data (i + 32) path [] (fst r)
           else scan_entries n join p data (i + 32) path [] (add_deleted file st)
      else Some (st, Returned))"

text \<open>
  \<open>ScanDeletedFiles\<close>: an error of the root directory's walk discards the files found
  so far.
\<close>

datatype scan_error = LoadFailed fat32_error | WalkFailed io_error | WalkPanicked

definition ScanDeletedFiles :: "nat \<Rightarrow> (gostring \<Rightarrow> gostring \<Rightarrow> gostring) \<Rightarrow> Parser
    \<Rightarrow> (scan_error + RecoveredFile list) option" where
  "ScanDeletedFiles fuel join p =
     (case loadFAT p of
        Inl err \<Rightarrow> Some (Inl (LoadFailed err))
      | Inr p' \<Rightarrow>
         (case scanDirectory fuel join p' (RootCluster (bootSector p')) []
                 \<lparr>st_files = [], st_visited = {}\<rparr> of
            None \<Rightarrow> None
          | Some (st, Returned) \<Rightarrow> Some (Inr (st_files st))
          | Some (st, ReturnedError err) \<Rightarrow> Some (Inl (WalkFailed err))
          | Some (st, Panicked) \<Rightarrow> Some (Inl WalkPanicked)))"

text \<open>
  \<open>RecoverFile\<close> for a file entry, on the path where the output file is created. The
  counters are 32-bit unsigned and wrap; the division panics when the cluster size is 0.
  The state of the loop is \<open>i\<close>, \<open>bytesWritten\<close>, \<open>cluster\<close> and the output so far.
\<close>

datatype recovered = DirectoryCreated | FileWritten "byte list" "io_error option" | DivideByZero

function RecoverFile32_loop :: "Parser \<Rightarrow> 32 word \<Rightarrow> 32 word \<Rightarrow> 32 word \<Rightarrow> 32 word \<Rightarrow> 32 word
    \<Rightarrow> byte list \<Rightarrow> byte list \<times> io_error option" where
  "RecoverFile32_loop p fileSize clustersNeeded i bytesWritten cluster out =
     (if i < clustersNeeded \<and> bytesWritten < fileSize then
        case readCluster p cluster of
          Inl err \<Rightarrow> if err = EOF then (out, None) else (out, Some err)
        | Inr data \<Rightarrow>
           let toWrite = (word_of_nat (length data) :: 32 word);
               remaining = fileSize - bytesWritten;
               toWrite = (if toWrite > remaining then remaining else toWrite)
           in RecoverFile32_loop p fileSize clustersNeeded (i + 1) (bytesWritten + toWrite)
                (cluster + 1) (out @ take (unat toWrite) data)
      else (out, None))"
  by pat_completeness auto

termination RecoverFile32_loop
proof (relation "measure (\<lambda>(p, fileSize, clustersNeeded, i, bytesWritten, cluster, out).
    unat clustersNeeded - unat i)", goal_cases)
  case 1
  show ?case by simp
next
  case (2 p fileSize clustersNeeded i bytesWritten cluster out data toWrite remaining toWritea)
  from 2(1) have lt: "unat i < unat clustersNeeded" by (simp add: word_less_nat_alt)
  have "unat clustersNeeded < 2 ^ LENGTH(32)" by (rule unsigned_less)
  with lt have "unat i + unat (1 :: 32 word) < 2 ^ LENGTH(32)" by simp
  then have "unat (i + 1) = unat i + unat (1 :: 32 word)" by (simp only: unat_add_lem)
  with lt show ?case by simp
qed

declare RecoverFile32_loop.simps [simp del]

definition RecoverFile32 :: "Parser \<Rightarrow> RecoveredFile \<Rightarrow> recovered" where
  "RecoverFile32 p file =
     (if rf_IsDirectory file then DirectoryCreated
      else if (word_of_int (clusterSz p) :: 32 word) = 0 then DivideByZero
      else
        let clustersNeeded =
              (rf_Size file + word_of_int (clusterSz p) - 1) div word_of_int (clusterSz p);
            clustersNeeded = (if clustersNeeded = 0 then 1 else clustersNeeded)
        in case RecoverFile32_loop p (rf_Size file) clustersNeeded 0 0 (rf_FirstCluster file) [] of
             (out, err) \<Rightarrow> FileWritten out err)"

subsection \<open>Concrete FAT32 inputs\<close>

text \<open>
  A volume of 4 GiB + 16 KiB filled with the byte 0x41, 4096-byte clusters, the data
  region at byte 16384, and a deleted file entry of the largest size FAT32 allows.
\<close>

definition big_parser :: Parser where
  "big_parser =
     \<lparr>reader = file_Reader (replicate 4294983680 0x41),
      bootSector = \<lparr>BytesPerSector = 512, SectorsPerCluster = 8, ReservedSectors = 32,
                    NumFATs = 0, TotalSectors32 = 0, FATSize32 = 0, RootCluster = 2\<rparr>,
      fatStart = 16384, dataStart = 16384, clusterSz = 4096, fatTable = []\<rparr>"

definition big_file :: RecoveredFile where
  "big_file =
     \<lparr>rf_Name = [], rf_LongName = [], rf_Path = [], rf_FirstCluster = 2,
      rf_Size = 0xFFFFFFFF, rf_IsDirectory = False, rf_IsDeleted = True\<rparr>"

section \<open>NTFS parser (package ntfs)\<close>

text \<open>\<open>DataRun.Offset\<close> is an \<open>int64\<close>: a 64-bit word read with \<open>sint\<close>.\<close>

record DataRun =
  run_Offset :: "64 word"
  run_Length :: "64 word"

record MftFile =
  mf_Name :: gostring
  mf_Path :: gostring
  mf_MFTIndex :: "64 word"
  mf_ParentRef :: "64 word"
  mf_Size :: "64 word"
  mf_IsDirectory :: bool
  mf_IsDeleted :: bool
  mf_DataRuns :: "DataRun list"

text \<open>The fields of the NTFS parser that attribute parsing and extraction use.\<close>

record NtfsParser =
  ntfs_reader :: Reader
  ntfs_mftStart :: int
  ntfs_clusterSize :: int
  ntfs_mftRecSize :: int

datatype panic = IndexOutOfRange

text \<open>
  A slice passed to a function is modelled by its elements and by \<open>spare\<close>, the
  elements of the backing array between its length and its capacity: a slice expression
  may reach into them, and panics only beyond the capacity.
\<close>

definition run_lenBytes :: "byte list \<Rightarrow> nat \<Rightarrow> nat" where
  "run_lenBytes data i = unat (data ! i AND 0x0F)"

definition run_offBytes :: "byte list \<Rightarrow> nat \<Rightarrow> nat" where
  "run_offBytes data i = unat (drop_bit 4 (data ! i))"

text \<open>
  The two inner loops of \<open>parseDataRuns\<close>. A shift by 64 bits or more yields 0 in Go,
  as \<open>push_bit\<close> does on a 64-bit word.
\<close>

definition run_length :: "byte list \<Rightarrow> nat \<Rightarrow> nat \<Rightarrow> 64 word" where
  "run_length data i lenBytes =
     fold (\<lambda>j length. length OR push_bit (8 * j) (ucast (data ! (i + 1 + j)))) [0 ..< lenBytes] 0"

definition run_delta :: "byte list \<Rightarrow> nat \<Rightarrow> nat \<Rightarrow> nat \<Rightarrow> 64 word" where
  "run_delta data i lenBytes offBytes =
     (if offBytes > 0 then
        let offset = fold (\<lambda>j offset. offset OR push_bit (8 * j) (ucast (data ! (i + 1 + lenBytes + j))))
                       [0 ..< offBytes] 0
        in if data ! (i + lenBytes + offBytes) AND 0x80 \<noteq> 0
           then fold (\<lambda>j offset. offset OR push_bit (8 * j) 0xFF) [offBytes ..< 8] offset
           else offset
      else 0)"

function parseDataRuns_loop :: "byte list \<Rightarrow> nat \<Rightarrow> 64 word \<Rightarrow> DataRun list \<Rightarrow> DataRun list" where
  "parseDataRuns_loop data i currentLCN runs =
     (if i < length data then
        if data ! i = 0 then runs
        else if i + 1 + run_lenBytes data i + run_offBytes data i > length data then runs
        else parseDataRuns_loop data (i + 1 + run_lenBytes data i + run_offBytes data i)
               (currentLCN + run_delta data i (run_lenBytes data i) (run_offBytes data i))
               (runs @ [\<lparr>run_Offset =
                           currentLCN + run_delta data i (run_lenBytes data i) (run_offBytes data i),
                         run_Length = run_length data i (run_lenBytes data i)\<rparr>])
      else runs)"
  by pat_completeness auto
termination
  by (relation "measure (\<lambda>(data, i, currentLCN, runs). length data - i)") auto

declare parseDataRuns_loop.simps [simp del]

definition parseDataRuns :: "byte list \<Rightarrow> byte list \<Rightarrow> panic + DataRun list" where
  "parseDataRuns attr spare =
     (if length (attr @ spare) < 34 then Inl IndexOutOfRange
      else
        let dataRunsOff = unat (Uint16 (attr @ spare) 32) in
        if dataRunsOff \<ge> length attr then Inr []
        else Inr (parseDataRuns_loop (drop dataRunsOff attr) 0 0 []))"

text \<open>The positions and sizes of the runs that the loop of \<open>parseDataRuns\<close> consumes.\<close>

function run_spans :: "byte list \<Rightarrow> nat \<Rightarrow> (nat \<times> nat \<times> nat) list" where
  "run_spans data i =
     (if i < length data then
        if data ! i = 0 then []
        else if i + 1 + run_lenBytes data i + run_offBytes data i > length data then []
        else (i, run_lenBytes data i, run_offBytes data i) #
             run_spans data (i + 1 + run_lenBytes data i + run_offBytes data i)
      else [])"
  by pat_completeness auto
termination
  by (relation "measure (\<lambda>(data, i). length data - i)") auto

declare run_spans.simps [simp del]

definition decodeUTF16 :: "byte list \<Rightarrow> gostring" where
  "decodeUTF16 b =
     string_of_runes (utf16_Decode (map (\<lambda>i. Uint16 b (i * 2)) [0 ..< length b div 2]))"

text \<open>
  \<open>parseFileNameAttr\<close>. The bound check \<open>int(66+nameLen*2) > len(fnAttr)\<close> is computed
  on \<open>uint8\<close> values and wraps at 256; the slice of the name is taken with the unwrapped
  bound and panics beyond the capacity.
\<close>

definition parseFileNameAttr :: "byte list \<Rightarrow> byte list \<Rightarrow> MftFile \<Rightarrow> panic + MftFile" where
  "parseFileNameAttr attr spare file =
     (if length attr < 24 + 66 then Inr file
      else
        let valueOffset = unat (Uint16 attr 20) in
        if valueOffset + 66 > length attr then Inr file
        else
          let fnAttr = drop valueOffset attr;
              parentRef = Uint64 fnAttr 0 AND 0x0000FFFFFFFFFFFF;
              nameLen = fnAttr ! 64;
              nameType = fnAttr ! 65
          in
            if nameType = 2 \<and> mf_Name file \<noteq> [] then Inr file
            else if unat (66 + nameLen * 2) > length fnAttr then Inr file
            else if 66 + unat nameLen * 2 > length (fnAttr @ spare) then Inl IndexOutOfRange
            else Inr (file\<lparr>mf_Name :=
                              decodeUTF16 (take (unat nameLen * 2) (drop 66 (fnAttr @ spare))),
                            mf_ParentRef := parentRef\<rparr>))"

text \<open>The \<open>switch attrType\<close> of \<open>parseAttributes\<close> for the attribute at \<open>offset\<close>.\<close>

definition dispatch_attr :: "byte list \<Rightarrow> nat \<Rightarrow> 32 word \<Rightarrow> nat \<Rightarrow> MftFile \<Rightarrow> panic + MftFile" where
  "dispatch_attr record offset attrType attrLen file =
     (let nonResident = record ! (offset + 8);
          attr = take attrLen (drop offset record);
          spare = drop (offset + attrLen) record
      in
        if attrType = 0x30 then
          (if nonResident = 0 then parseFileNameAttr attr spare file else Inr file)
        else if attrType = 0x80 then
          (if nonResident = 1 then
             (case parseDataRuns attr spare of
                Inl e \<Rightarrow> Inl e
              | Inr runs \<Rightarrow>
                 if length record < offset + 56 then Inl IndexOutOfRange
                 else Inr (file\<lparr>mf_DataRuns := runs, mf_Size := Uint64 record (offset + 48)\<rparr>))
           else if nonResident = 0 then
             (if length record < offset + 20 then Inl IndexOutOfRange
              else Inr (file\<lparr>mf_Size := ucast (Uint32 record (offset + 16))\<rparr>))
           else Inr file)
        else Inr file)"

lemma attr_step_decreases:
  "offset + 16 < length record \<Longrightarrow> (w :: 32 word) \<noteq> 0
   \<Longrightarrow> length record - (offset + unat w) < length record - offset"
proof -
  assume a: "offset + 16 < length record" and "w \<noteq> 0"
  then have "0 < unat w" by (simp add: unat_gt_0)
  with a show ?thesis by arith
qed

function parseAttributes_loop :: "byte list \<Rightarrow> nat \<Rightarrow> MftFile \<Rightarrow> panic + MftFile" where
  "parseAttributes_loop record offset file =
     (if offset + 16 < length record then
        if Uint32 record offset = 0xFFFFFFFF \<or> Uint32 record offset = 0 then Inr file
        else if Uint32 record (offset + 4) = 0
                \<or> unat (Uint32 record (offset + 4)) > length record - offset then Inr file
        else
          case dispatch_attr record offset (Uint32 record offset)
                 (unat (Uint32 record (offset + 4))) file of
            Inl e \<Rightarrow> Inl e
          | Inr file' \<Rightarrow>
              parseAttributes_loop record (offset + unat (Uint32 record (offset + 4))) file'
      else Inr file)"
  by pat_completeness auto
termination
  by (relation "measure (\<lambda>(record, offset, file). length record - offset)")
    (auto intro: attr_step_decreases)

declare parseAttributes_loop.simps [simp del]

definition parseAttributes :: "byte list \<Rightarrow> panic + MftFile" where
  "parseAttributes record =
     (if length record < 24 then Inl IndexOutOfRange
      else
        let flags = Uint16 record 22;
            attrOffset = Uint16 record 20
        in parseAttributes_loop record (unat attrOffset)
             \<lparr>mf_Name = [], mf_Path = [], mf_MFTIndex = 0, mf_ParentRef = 0, mf_Size = 0,
              mf_IsDirectory = (flags AND 0x02 \<noteq> 0), mf_IsDeleted = (flags AND 0x01 = 0),
              mf_DataRuns = []\<rparr>)"

text \<open>
  The attributes that the loop of \<open>parseAttributes\<close> hands to the \<open>switch\<close>, as
  (offset, type, length), when no dispatch panics.
\<close>

function attr_spans :: "byte list \<Rightarrow> nat \<Rightarrow> (nat \<times> 32 word \<times> nat) list" where
  "attr_spans record offset =
     (if offset + 16 < length record then
        if Uint32 record offset = 0xFFFFFFFF \<or> Uint32 record offset = 0 then []
        else if Uint32 record (offset + 4) = 0
                \<or> unat (Uint32 record (offset + 4)) > length record - offset then []
        else (offset, Uint32 record offset, unat (Uint32 record (offset + 4))) #
             attr_spans record (offset + unat (Uint32 record (offset + 4)))
      else [])"
  by pat_completeness auto
termination
  by (relation "measure (\<lambda>(record, offset). length record - offset)")
    (auto intro: attr_step_decreases)

declare attr_spans.simps [simp del]

text \<open>
  The two loops as a fold over the spans: what \<open>parseAttributes\<close> does with the
  attributes it dispatches, and the runs decoded from the spans that \<open>parseDataRuns\<close>
  consumes.
\<close>

fun dispatch_all :: "byte list \<Rightarrow> (nat \<times> 32 word \<times> nat) list \<Rightarrow> MftFile \<Rightarrow> panic + MftFile" where
  "dispatch_all rcd [] f = Inr f"
| "dispatch_all rcd ((offset, attrType, attrLen) # spans) f =
     (case dispatch_attr rcd offset attrType attrLen f of
        Inl e \<Rightarrow> Inl e
      | Inr f' \<Rightarrow> dispatch_all rcd spans f')"

fun decode_spans :: "byte list \<Rightarrow> 64 word \<Rightarrow> (nat \<times> nat \<times> nat) list \<Rightarrow> DataRun list" where
  "decode_spans data currentLCN [] = []"
| "decode_spans data currentLCN ((i, lenBytes, offBytes) # spans) =
     \<lparr>run_Offset = currentLCN + run_delta data i lenBytes offBytes,
      run_Length = run_length data i lenBytes\<rparr> #
     decode_spans data (currentLCN + run_delta data i lenBytes offBytes) spans"

text \<open>
  \<open>RecoverFile\<close> for a file, on the path where the output file is created. The inner
  loop reads the clusters of one run; its state is \<open>c\<close>, \<open>written\<close> and the output.
  All counters are 64-bit and wrap.
\<close>

function recover_run :: "NtfsParser \<Rightarrow> 64 word \<Rightarrow> DataRun \<Rightarrow> 64 word \<Rightarrow> 64 word \<Rightarrow> byte list
    \<Rightarrow> byte list \<times> 64 word \<times> io_error option" where
  "recover_run p fileSize run c written out =
     (if c < run_Length run \<and> written < fileSize then
        case Reader_ReadAt (ntfs_reader p) (nat (ntfs_clusterSize p))
               (sint (run_Offset run * word_of_int (ntfs_clusterSize p)
                      + c * word_of_int (ntfs_clusterSize p))) of
          (bs, err) \<Rightarrow>
            (case err of
               Some e \<Rightarrow> if e = EOF then (out, written, None) else (out, written, Some e)
             | None \<Rightarrow>
                recover_run p fileSize run (c + 1)
                  (written + min (word_of_nat (nat (ntfs_clusterSize p))) (fileSize - written))
                  (out @ take (unat (min (word_of_nat (nat (ntfs_clusterSize p)) :: 64 word)
                                        (fileSize - written)))
                           (read_into (nat (ntfs_clusterSize p)) bs)))
      else (out, written, None))"
  by pat_completeness auto

termination recover_run
proof (relation "measure (\<lambda>(p, fileSize, run, c, written, out). unat (run_Length run) - unat c)",
    goal_cases)
  case 1
  show ?case by simp
next
  case (2 p fileSize run c written out)
  from 2(1) have lt: "unat c < unat (run_Length run)" by (simp add: word_less_nat_alt)
  have "unat (run_Length run) < 2 ^ LENGTH(64)" by (rule unsigned_less)
  with lt have "unat c + unat (1 :: 64 word) < 2 ^ LENGTH(64)" by simp
  then have "unat (c + 1) = unat c + unat (1 :: 64 word)" by (simp only: unat_add_lem)
  with lt show ?case by simp
qed

declare recover_run.simps [simp del]

fun recover_runs :: "NtfsParser \<Rightarrow> 64 word \<Rightarrow> DataRun list \<Rightarrow> 64 word \<Rightarrow> byte list
    \<Rightarrow> byte list \<times> io_error option" where
  "recover_runs p fileSize [] written out = (out, None)"
| "recover_runs p fileSize (run # runs) written out =
     (if run_Offset run = 0 then
        let zeros = replicate (unat (run_Length run * word_of_int (ntfs_clusterSize p))) (0 :: byte);
            toWrite = min (word_of_nat (length zeros)) (fileSize - written)
        in recover_runs p fileSize runs (written + toWrite) (out @ take (unat toWrite) zeros)
      else
        case recover_run p fileSize run 0 written out of
          (out', written', err) \<Rightarrow>
            (case err of
               Some e \<Rightarrow> (out', Some e)
             | None \<Rightarrow> recover_runs p fileSize runs written' out'))"

definition RecoverFileNtfs :: "NtfsParser \<Rightarrow> MftFile \<Rightarrow> recovered" where
  "RecoverFileNtfs p file =
     (if mf_IsDirectory file then DirectoryCreated
      else case recover_runs p (mf_Size file) (mf_DataRuns file) 0 [] of
             (out, err) \<Rightarrow> FileWritten out err)"

subsection \<open>Concrete NTFS inputs\<close>

text \<open>
  A non-resident attribute whose run list, at offset 40, encodes the runs
  (100, 1), (0, 2), (3, 1): the second run has no offset bytes. The volume holds a
  different byte in each of the clusters 100 to 103.
\<close>

definition sparse_attr :: "byte list" where
  "sparse_attr = replicate 32 0 @ [40, 0] @ replicate 6 0
     @ [0x11, 0x01, 0x64, 0x01, 0x02, 0x11, 0x01, 0x03, 0x00] @ replicate 15 0"

definition sparse_runs :: "DataRun list" where
  "sparse_runs =
     [\<lparr>run_Offset = 100, run_Length = 1\<rparr>, \<lparr>run_Offset = 100, run_Length = 2\<rparr>,
      \<lparr>run_Offset = 103, run_Length = 1\<rparr>]"

definition sparse_volume :: "byte list" where
  "sparse_volume = replicate 409600 0 @ replicate 4096 0xA0 @ replicate 4096 0xA1
     @ replicate 4096 0xA2 @ replicate 4096 0xA3"

definition sparse_parser :: NtfsParser where
  "sparse_parser =
     \<lparr>ntfs_reader = file_Reader sparse_volume, ntfs_mftStart = 0, ntfs_clusterSize = 4096,
      ntfs_mftRecSize = 1024\<rparr>"

definition sparse_file :: MftFile where
  "sparse_file =
     \<lparr>mf_Name = [], mf_Path = [], mf_MFTIndex = 0, mf_ParentRef = 5, mf_Size = 16384,
      mf_IsDirectory = False, mf_IsDeleted = True, mf_DataRuns = sparse_runs\<rparr>"

text \<open>The bytes that were written, for a result of \<open>RecoverFile\<close>.\<close>

definition written_bytes :: "recovered \<Rightarrow> byte list" where
  "written_bytes r = (case r of FileWritten out err \<Rightarrow> out | _ \<Rightarrow> [])"

text \<open>
  An MFT record of 128 bytes for a deleted file: the attributes start at byte 24; one
  non-resident \<open>$DATA\<close> attribute of 80 bytes with real size 16384 and the run list above
  at its offset 64; then the end marker.
\<close>

definition sparse_record :: "byte list" where
  "sparse_record = replicate 20 0 @ [24, 0, 0, 0]
     @ [0x80, 0, 0, 0, 80, 0, 0, 0, 1, 0, 0, 0, 0, 0, 0, 0] @ replicate 16 0 @ [64, 0]
     @ replicate 14 0 @ [0x00, 0x40, 0, 0, 0, 0, 0, 0] @ replicate 8 0
     @ [0x11, 0x01, 0x64, 0x01, 0x02, 0x11, 0x01, 0x03, 0x00] @ replicate 7 0
     @ [0xFF, 0xFF, 0xFF, 0xFF] @ replicate 20 0"

section \<open>Properties of the carver\<close>

lemma file_Reader_contract: "ReaderAt_contract (file_Reader dev)"
  by (simp add: ReaderAt_contract_def file_Reader_def Let_def)

subsection \<open>Search window of one buffer\<close>

text \<open>
  C5, as stated, fails: after a read of 50 bytes the claim's window
  \<open>[0, max(0, n - 64))\<close> is empty, but the loop visits all 50 positions, and a
  header at position 0 of such a buffer is reported.
\<close>

theorem search_window_short_read_counterexample:
  "search_positions 50 \<noteq> [0 ..< nat (max 0 (50 - 64))]
   \<and> search_positions 50 = [0 ..< 50]
   \<and> scan_buffer jpeg_only ([0xFF, 0xD8, 0xFF] @ replicate 47 0x11) 0 [] =
       [\<lparr>cf_Signature = hd jpeg_only, cf_Offset = 0, cf_Size = 50 * MiB, cf_Path = []\<rparr>]"
  by code_simp

text \<open>
  C5, amended: after a read of \<open>n\<close> bytes the positions searched are \<open>[0, n - 64)\<close>
  when \<open>n \<ge> 64\<close>, and all of \<open>[0, n)\<close> when \<open>n < 64\<close>; the hits of the buffer are
  those of the signature loop run at these positions in order.
\<close>

theorem search_window_amended:
  "search_positions n = (if n < 64 then [0 ..< nat n] else [0 ..< nat (n - 64)])
   \<and> scan_buffer sigs buf offset files =
       fold (\<lambda>i fs. scan_sigs buf offset i sigs fs)
         (if length buf < 64 then [0 ..< length buf] else [0 ..< length buf - 64]) files"
proof -
  have "search_positions n = (if n < 64 then [0 ..< nat n] else [0 ..< nat (n - 64)])" for n
    by (simp add: search_positions_def searchEnd_of_def Let_def)
  moreover have "nat (int (length buf) - 64) = length buf - 64"
    by simp
  ultimately show ?thesis
    by (simp add: scan_buffer_def del: of_nat_diff)
qed

subsection \<open>Termination of the scan\<close>

lemma Scan_step_advances:
  "Scan_step r sigs bufSize overlap offset files = Inr (offset', files') \<Longrightarrow> offset + 1 \<le> offset'"
  by (auto simp: Scan_step_def advance_of_def Let_def Suc_le_eq split: prod.splits if_splits)

lemma Scan_loop_total:
  "\<exists>res. Scan_loop r sigs diskSize bufSize overlap offset files = Some res"
proof (induction "nat (diskSize - offset)" arbitrary: offset files rule: less_induct)
  case less
  show ?case
  proof (cases "offset < diskSize")
    case False
    then show ?thesis by (subst Scan_loop.simps) simp
  next
    case True
    show ?thesis
    proof (cases "Scan_step r sigs bufSize overlap offset files")
      case (Inl res)
      with True show ?thesis by (subst Scan_loop.simps) simp
    next
      case (Inr p)
      obtain offset' files' where p: "p = (offset', files')" by (cases p)
      from Inr p have "offset + 1 \<le> offset'" by (auto dest: Scan_step_advances)
      with True have "nat (diskSize - offset') < nat (diskSize - offset)" by simp
      from less [OF this] obtain res where
        "Scan_loop r sigs diskSize bufSize overlap offset' files' = Some res" by blast
      with True Inr p show ?thesis by (subst Scan_loop.simps) simp
    qed
  qed
qed

text \<open>
  C6: an iteration that does not leave the loop moves the cursor forward by at least one
  byte; the loop is left when the cursor has reached the device size and when a read
  returns no bytes; and the loop, hence \<open>Scan\<close>, returns for every reader (also one
  whose reads are short), every signature list and every start state.
\<close>

theorem Scan_terminates:
  "(Scan_step r sigs bufSize overlap offset files = Inr (offset', files') \<longrightarrow> offset + 1 \<le> offset')
   \<and> (diskSize \<le> offset \<longrightarrow> Scan_loop r sigs diskSize bufSize overlap offset files = Some (Inr files))
   \<and> (offset < diskSize \<and> Reader_ReadAt r bufSize offset = ([], None) \<longrightarrow>
        Scan_loop r sigs diskSize bufSize overlap offset files = Some (Inr files))
   \<and> (\<exists>res. Scan_loop r sigs diskSize bufSize overlap offset files = Some res)
   \<and> (\<exists>res. Scan c = Some res)"
proof (intro conjI impI)
  assume "Scan_step r sigs bufSize overlap offset files = Inr (offset', files')"
  then show "offset + 1 \<le> offset'" by (rule Scan_step_advances)
next
  assume "diskSize \<le> offset"
  then show "Scan_loop r sigs diskSize bufSize overlap offset files = Some (Inr files)"
    by (subst Scan_loop.simps) simp
next
  assume "offset < diskSize \<and> Reader_ReadAt r bufSize offset = ([], None)"
  then show "Scan_loop r sigs diskSize bufSize overlap offset files = Some (Inr files)"
    by (subst Scan_loop.simps) (simp add: Scan_step_def)
next
  show "\<exists>res. Scan_loop r sigs diskSize bufSize overlap offset files = Some res"
    by (rule Scan_loop_total)
next
  show "\<exists>res. Scan c = Some res"
    unfolding Scan_def Let_def by (rule Scan_loop_total)
qed

theorem Scan_terminates_witness:
  "Scan_step short_Reader [] 4096 1024 7 [] = Inr (9, []) \<and> (7::int) + 1 \<le> 9
   \<and> (4096::int) \<le> 4096 \<and> Scan_loop short_Reader [] 4096 4096 1024 4096 [] = Some (Inr [])
   \<and> (7::int) < 4096 \<and> Reader_ReadAt empty_Reader 4096 7 = ([], None)
   \<and> Scan_loop empty_Reader [] 4096 4096 1024 7 [] = Some (Inr [])"
proof -
  have a: "Scan_step short_Reader [] 4096 1024 7 [] = Inr (9, [])"
    by code_simp
  have b: "Reader_ReadAt empty_Reader 4096 7 = ([], None)"
    by (simp add: empty_Reader_def)
  from Scan_terminates [of short_Reader "[]" 4096 1024 7 "[]" 9 "[]" 4096 undefined] a
  have c: "(7::int) + 1 \<le> 9" by blast
  from Scan_terminates [of short_Reader "[]" 4096 1024 4096 "[]" 0 "[]" 4096 undefined]
  have d: "Scan_loop short_Reader [] 4096 4096 1024 4096 [] = Some (Inr [])" by simp
  from Scan_terminates [of empty_Reader "[]" 4096 1024 7 "[]" 0 "[]" 4096 undefined] b
  have e: "Scan_loop empty_Reader [] 4096 4096 1024 7 [] = Some (Inr [])" by simp
  from a b c d e show ?thesis by simp
qed

subsection \<open>Bound on the bytes extracted\<close>

lemma bytes_Index_bound:
  "bytes_Index s sep = Some i \<Longrightarrow> i + length sep \<le> length s"
proof (induction s arbitrary: i)
  case Nil
  then show ?case by (simp split: if_splits)
next
  case (Cons x xs)
  show ?case
  proof (cases "take (length sep) (x # xs) = sep")
    case True
    then have "length (take (length sep) (x # xs)) = length sep"
      by simp
    then have "length sep \<le> length (x # xs)"
      by (simp only: length_take)
    with True Cons.prems show ?thesis by simp
  next
    case False
    with Cons.prems obtain j where "bytes_Index xs sep = Some j" "i = Suc j"
      by auto
    with Cons.IH [of j] show ?thesis by simp
  qed
qed

lemma RecoverFile_step_inv:
  assumes "ReaderAt_contract r"
    and "int (length out) = written" and "written < maxSize"
    and "RecoverFile_step r sig maxSize (out, written, offset) = res"
    and "res = Inl (out', written', offset') \<or> res = Inr (out', written', offset')"
  shows "int (length out') = written' \<and> written' \<le> maxSize"
proof -
  obtain buf err where
    rd: "Reader_ReadAt r (nat (min 65536 (maxSize - written))) offset = (buf, err)"
    by (cases "Reader_ReadAt r (nat (min 65536 (maxSize - written))) offset")
  from assms(1) have "length buf \<le> nat (min 65536 (maxSize - written))"
    using rd unfolding ReaderAt_contract_def by (metis fst_conv)
  with assms(3) have len: "int (length buf) \<le> maxSize - written" by simp
  have idx: "bytes_Index buf (sig_Footer sig) = Some i
      \<Longrightarrow> int (i + length (sig_Footer sig)) \<le> maxSize - written" for i
    using bytes_Index_bound [of buf "sig_Footer sig" i] len by simp
  have idx': "bytes_Index buf (sig_Footer sig) = Some i
      \<Longrightarrow> i + length (sig_Footer sig) \<le> length buf" for i
    using bytes_Index_bound [of buf "sig_Footer sig" i] by simp
  from assms(2,3,4,5) rd len show ?thesis
    by (auto simp: RecoverFile_step_def Let_def min_def split: if_splits dest: idx idx')
qed

lemma RecoverFile_loop_inv:
  "ReaderAt_contract r \<Longrightarrow> int (length (fst st)) = fst (snd st) \<Longrightarrow> fst (snd st) \<le> maxSize \<Longrightarrow>
   int (length (fst (RecoverFile_loop r sig maxSize st))) \<le> maxSize"
proof (induction r sig maxSize st rule: RecoverFile_loop.induct)
  case (1 r sig maxSize st)
  obtain out written offset where st: "st = (out, written, offset)" by (cases st)
  show ?case
  proof (cases "written < maxSize")
    case False
    with 1(2,3,4) st show ?thesis by (subst RecoverFile_loop.simps) simp
  next
    case True
    show ?thesis
    proof (cases "RecoverFile_step r sig maxSize st")
      case (Inl st')
      obtain out' written' offset' where st': "st' = (out', written', offset')" by (cases st')
      from RecoverFile_step_inv [OF 1(2) _ True, where out=out and offset=offset and sig=sig
          and out'=out' and written'=written' and offset'=offset'] 1(3) st Inl st'
      have "int (length out') = written' \<and> written' \<le> maxSize" by simp
      with True st Inl st' show ?thesis by (subst RecoverFile_loop.simps) simp
    next
      case (Inr st')
      obtain out' written' offset' where st': "st' = (out', written', offset')" by (cases st')
      from RecoverFile_step_inv [OF 1(2) _ True, where out=out and offset=offset and sig=sig
          and out'=out' and written'=written' and offset'=offset'] 1(3) st Inr st'
      have inv: "int (length out') = written' \<and> written' \<le> maxSize" by simp
      from True st have lt: "fst (snd st) < maxSize" by simp
      from 1(1) [OF lt Inr 1(2)] inv st'
      have "int (length (fst (RecoverFile_loop r sig maxSize st'))) \<le> maxSize" by simp
      with True st Inr show ?thesis by (subst RecoverFile_loop.simps) simp
    qed
  qed
qed

text \<open>
  C10: for a hit whose signature has a non-negative \<open>MaxSize\<close>, and a reader that
  keeps the \<open>io.ReaderAt\<close> contract, the number of bytes written to the output file is at
  most \<open>MaxSize\<close>, with 0 standing for the 10 MiB default; the footer branch is one of the
  two branches of the step and is covered by the same bound.
\<close>

theorem RecoverFile_bounded:
  assumes "ReaderAt_contract (carver_reader c)" and "0 \<le> sig_MaxSize (cf_Signature file)"
  shows "int (length (RecoverFile c file)) \<le>
         (if sig_MaxSize (cf_Signature file) = 0 then 10 * 1024 * 1024
          else sig_MaxSize (cf_Signature file))"
  using assms
    RecoverFile_loop_inv [of "carver_reader c" "([], 0, cf_Offset file)" _ "cf_Signature file"]
  by (simp add: RecoverFile_def Let_def)

theorem RecoverFile_bounded_witness:
  "ReaderAt_contract (carver_reader (NewCarver (file_Reader jpeg_image)))
   \<and> 0 \<le> sig_MaxSize (cf_Signature (jpeg_hit 12))
   \<and> RecoverFile (NewCarver (file_Reader jpeg_image)) (jpeg_hit 12) =
       [0xFF, 0xD8, 0xFF, 0xE0] @ replicate 8 0x42
   \<and> int (length (RecoverFile (NewCarver (file_Reader jpeg_image)) (jpeg_hit 12))) \<le> 12"
proof -
  have a: "ReaderAt_contract (carver_reader (NewCarver (file_Reader jpeg_image)))"
    by (simp add: NewCarver_def file_Reader_contract)
  have b: "0 \<le> sig_MaxSize (cf_Signature (jpeg_hit 12))"
    by (simp add: jpeg_hit_def mk_sig_def)
  have c: "RecoverFile (NewCarver (file_Reader jpeg_image)) (jpeg_hit 12) =
      [0xFF, 0xD8, 0xFF, 0xE0] @ replicate 8 0x42"
    by code_simp
  from RecoverFile_bounded [OF a b] a b c show ?thesis
    by (simp add: jpeg_hit_def mk_sig_def)
qed

section \<open>Properties of the FAT32 parser\<close>

subsection \<open>Boot sector\<close>

text \<open>
  C2, as stated, fails: on an image whose boot sector is all zeros, so that
  \<open>bytes_per_sector\<close> and \<open>sectors_per_cluster\<close> are both 0, \<open>NewParser\<close> returns a
  parser (with cluster size 0), not an error.
\<close>

theorem NewParser_zero_fields_counterexample:
  "\<not> isl (NewParser (file_Reader (replicate 512 0)))
   \<and> BytesPerSector (bootSector (projr (NewParser (file_Reader (replicate 512 0))))) = 0
   \<and> SectorsPerCluster (bootSector (projr (NewParser (file_Reader (replicate 512 0))))) = 0
   \<and> clusterSz (projr (NewParser (file_Reader (replicate 512 0)))) = 0"
  by (simp add: NewParser_def readBootSector_def file_Reader_def read_into_def Uint16_def
      Uint32_def)

lemma readBootSector_file:
  assumes "512 \<le> length dev"
  shows "\<exists>p. readBootSector (file_Reader dev) = Inr p
           \<and> BytesPerSector (bootSector p) = Uint16 dev 11
           \<and> SectorsPerCluster (bootSector p) = dev ! 13
           \<and> clusterSz p = uint (dev ! 13) * uint (Uint16 dev 11)"
proof -
  from assms have "read_into 512 (take 512 dev) = take 512 dev"
    by (simp add: read_into_def)
  with assms show ?thesis
    by (simp add: readBootSector_def file_Reader_def Let_def Uint16_def)
qed

text \<open>
  C2, amended: constructing the FAT32 parser fails exactly when the read of the 512-byte
  boot sector reports an error (for an image file: when it is shorter than 512 bytes).
  The fields are not validated: on every image of at least 512 bytes a parser is
  returned, whatever \<open>bytes_per_sector\<close> and \<open>sectors_per_cluster\<close> are, and its
  cluster size is their product.
\<close>

theorem NewParser_amended:
  "((\<exists>e. NewParser r = Inl e) \<longleftrightarrow> snd (Reader_ReadAt r 512 0) \<noteq> None)
   \<and> (length dev < 512 \<longrightarrow> NewParser (file_Reader dev) = Inl (BootSectorReadFailed EOF))
   \<and> (512 \<le> length dev \<longrightarrow>
        (\<exists>p. NewParser (file_Reader dev) = Inr p
           \<and> BytesPerSector (bootSector p) = Uint16 dev 11
           \<and> SectorsPerCluster (bootSector p) = dev ! 13
           \<and> clusterSz p = uint (dev ! 13) * uint (Uint16 dev 11)))"
proof (intro conjI impI)
  show "(\<exists>e. NewParser r = Inl e) \<longleftrightarrow> snd (Reader_ReadAt r 512 0) \<noteq> None"
    by (cases "Reader_ReadAt r 512 0")
      (auto simp: NewParser_def readBootSector_def Let_def split: option.splits)
next
  assume "length dev < 512"
  then show "NewParser (file_Reader dev) = Inl (BootSectorReadFailed EOF)"
    by (simp add: NewParser_def readBootSector_def file_Reader_def)
next
  assume "512 \<le> length dev"
  from readBootSector_file [OF this] show "\<exists>p. NewParser (file_Reader dev) = Inr p
           \<and> BytesPerSector (bootSector p) = Uint16 dev 11
           \<and> SectorsPerCluster (bootSector p) = dev ! 13
           \<and> clusterSz p = uint (dev ! 13) * uint (Uint16 dev 11)"
    by (auto simp: NewParser_def)
qed

theorem NewParser_amended_witness:
  "length ([] :: byte list) < 512
   \<and> NewParser (file_Reader []) = Inl (BootSectorReadFailed EOF)
   \<and> 512 \<le> length (replicate 512 (0 :: byte))
   \<and> (\<exists>p. NewParser (file_Reader (replicate 512 0)) = Inr p
         \<and> BytesPerSector (bootSector p) = 0 \<and> SectorsPerCluster (bootSector p) = 0
         \<and> clusterSz p = 0)"
proof -
  have z: "Uint16 (replicate 512 0) 11 = 0" "replicate 512 (0 :: byte) ! 13 = 0"
    by (simp_all add: Uint16_def)
  from NewParser_amended [of undefined "[]"]
  have a: "NewParser (file_Reader []) = Inl (BootSectorReadFailed EOF)" by simp
  from NewParser_amended [of undefined "replicate 512 0"] z
  have b: "\<exists>p. NewParser (file_Reader (replicate 512 0)) = Inr p
         \<and> BytesPerSector (bootSector p) = 0 \<and> SectorsPerCluster (bootSector p) = 0
         \<and> clusterSz p = 0" by simp
  from a b show ?thesis by simp
qed

subsection \<open>Contiguous extraction\<close>

text \<open>
  C7 at a failing input: a deleted file of declared size \<open>S = 4294967295\<close> with first
  cluster 2 on a volume that holds all of its bytes. The 32-bit sum
  \<open>S + cluster_size - 1\<close> wraps to 4094, the number of clusters needed becomes 0 and
  is raised to 1, and the output file receives one cluster, 4096 bytes, although the
  first \<open>S\<close> bytes at the file's offset are all readable.
\<close>

theorem RecoverFile32_size_wraps:
  "RecoverFile32 big_parser big_file = FileWritten (replicate 4096 0x41) None
   \<and> clusterToOffset big_parser (rf_FirstCluster big_file) = dataStart big_parser
   \<and> take (unat (rf_Size big_file))
        (drop (nat (clusterToOffset big_parser (rf_FirstCluster big_file)))
           (replicate 4294983680 (0x41 :: byte))) = replicate 4294967295 0x41
   \<and> (rf_Size big_file + word_of_int (clusterSz big_parser) - 1) div
        word_of_int (clusterSz big_parser) = 0"
  by (simp add: RecoverFile32_def big_parser_def big_file_def readCluster_def
      clusterToOffset_def file_Reader_def read_into_def RecoverFile32_loop.simps)

section \<open>Properties of the NTFS parser\<close>

subsection \<open>Sparse runs\<close>

text \<open>
  C1 at a failing input, the spec's own scenario: runs (100, 1), (0, 2), (3, 1), cluster
  size 4096, size 16384. \<open>parseDataRuns\<close> stores the running sum, so the sparse run is
  recorded with offset 100, not 0; \<open>RecoverFile\<close> tests the stored offset against 0 and
  therefore reads clusters 100 and 101 for it. Bytes 4096..12288 of the output are the
  content of these clusters, not zeros.
\<close>

theorem sparse_run_read_from_disk:
  "parseDataRuns sparse_attr [] = Inr sparse_runs
   \<and> RecoverFileNtfs sparse_parser sparse_file =
       FileWritten (replicate 4096 0xA0 @ replicate 4096 0xA0 @ replicate 4096 0xA1
                    @ replicate 4096 0xA3) None
   \<and> take 8192 (drop 4096 (written_bytes (RecoverFileNtfs sparse_parser sparse_file))) =
       replicate 4096 0xA0 @ replicate 4096 0xA1
   \<and> take 8192 (drop 4096 (written_bytes (RecoverFileNtfs sparse_parser sparse_file))) ! 0 \<noteq> 0"
proof -
  have a: "parseDataRuns sparse_attr [] = Inr sparse_runs"
    by code_simp
  have b: "RecoverFileNtfs sparse_parser sparse_file =
       FileWritten (replicate 4096 0xA0 @ replicate 4096 0xA0 @ replicate 4096 0xA1
                    @ replicate 4096 0xA3) None"
    by (simp add: RecoverFileNtfs_def sparse_parser_def sparse_file_def sparse_runs_def
        file_Reader_def sparse_volume_def read_into_def Let_def recover_run.simps)
  have c: "take 8192 (drop 4096 (written_bytes (RecoverFileNtfs sparse_parser sparse_file))) =
       replicate 4096 0xA0 @ replicate 4096 0xA1"
    by (simp add: b written_bytes_def)
  have d: "(replicate 4096 0xA0 @ replicate 4096 0xA1) ! 0 \<noteq> (0 :: byte)"
    by (simp add: nth_append)
  from a b c d show ?thesis by simp
qed

subsection \<open>Bounds of attributes and runs\<close>

lemma attr_spans_unfold:
  "attr_spans rcd offset =
     (if offset + 16 < length rcd \<and> Uint32 rcd offset \<noteq> 0xFFFFFFFF \<and> Uint32 rcd offset \<noteq> 0
         \<and> Uint32 rcd (offset + 4) \<noteq> 0 \<and> unat (Uint32 rcd (offset + 4)) \<le> length rcd - offset
      then (offset, Uint32 rcd offset, unat (Uint32 rcd (offset + 4))) #
           attr_spans rcd (offset + unat (Uint32 rcd (offset + 4)))
      else [])"
  by (subst attr_spans.simps) (simp add: not_less)

lemma parseAttributes_loop_unfold:
  "parseAttributes_loop rcd offset f =
     (if offset + 16 < length rcd \<and> Uint32 rcd offset \<noteq> 0xFFFFFFFF \<and> Uint32 rcd offset \<noteq> 0
         \<and> Uint32 rcd (offset + 4) \<noteq> 0 \<and> unat (Uint32 rcd (offset + 4)) \<le> length rcd - offset
      then case dispatch_attr rcd offset (Uint32 rcd offset) (unat (Uint32 rcd (offset + 4))) f of
             Inl e \<Rightarrow> Inl e
           | Inr f' \<Rightarrow> parseAttributes_loop rcd (offset + unat (Uint32 rcd (offset + 4))) f'
      else Inr f)"
  by (subst parseAttributes_loop.simps) (simp add: not_less)

lemma attr_spans_bounds:
  "(off, ty, len) \<in> set (attr_spans rcd offset) \<Longrightarrow>
     offset \<le> off \<and> off + 16 < length rcd \<and> 0 < len \<and> off + len \<le> length rcd
     \<and> ty \<noteq> 0 \<and> ty \<noteq> 0xFFFFFFFF"
proof (induction rcd offset rule: attr_spans.induct)
  case (1 rcd offset)
  define t where "t = Uint32 rcd offset"
  define w where "w = Uint32 rcd (offset + 4)"
  define ok where "ok = (offset + 16 < length rcd \<and> t \<noteq> 0xFFFFFFFF \<and> t \<noteq> 0
      \<and> w \<noteq> 0 \<and> unat w \<le> length rcd - offset)"
  have unf: "attr_spans rcd offset =
      (if ok then (offset, t, unat w) # attr_spans rcd (offset + unat w) else [])"
    unfolding ok_def t_def w_def by (rule attr_spans_unfold)
  show ?case
  proof (cases ok)
    case False
    with 1(2) unf show ?thesis by simp
  next
    case True
    then have c: "offset + 16 < length rcd" "t \<noteq> 0xFFFFFFFF" "t \<noteq> 0" "w \<noteq> 0"
      "unat w \<le> length rcd - offset"
      unfolding ok_def by blast+
    from c(4) have pos: "0 < unat w" by (simp add: unat_gt_0)
    from 1(2) unf True have "(off, ty, len) = (offset, t, unat w)
        \<or> (off, ty, len) \<in> set (attr_spans rcd (offset + unat w))"
      by simp
    then show ?thesis
    proof
      assume "(off, ty, len) = (offset, t, unat w)"
      with c pos show ?thesis by simp
    next
      assume m: "(off, ty, len) \<in> set (attr_spans rcd (offset + unat w))"
      have "offset + unat (Uint32 rcd (offset + 4)) \<le> off \<and> off + 16 < length rcd \<and> 0 < len
          \<and> off + len \<le> length rcd \<and> ty \<noteq> 0 \<and> ty \<noteq> 0xFFFFFFFF"
      proof (rule 1(1))
        show "offset + 16 < length rcd" by (rule c(1))
        show "\<not> (Uint32 rcd offset = 0xFFFFFFFF \<or> Uint32 rcd offset = 0)"
          using c(2,3) unfolding t_def by blast
        show "\<not> (Uint32 rcd (offset + 4) = 0
            \<or> length rcd - offset < unat (Uint32 rcd (offset + 4)))"
          using c(4,5) unfolding w_def by (simp add: not_less)
        show "(off, ty, len) \<in> set (attr_spans rcd (offset + unat (Uint32 rcd (offset + 4))))"
          using m unfolding w_def .
      qed
      then show ?thesis by simp
    qed
  qed
qed

lemma parseAttributes_loop_spans:
  "parseAttributes_loop rcd offset f = dispatch_all rcd (attr_spans rcd offset) f"
proof (induction rcd offset f rule: parseAttributes_loop.induct)
  case (1 rcd offset f)
  define t where "t = Uint32 rcd offset"
  define w where "w = Uint32 rcd (offset + 4)"
  define ok where "ok = (offset + 16 < length rcd \<and> t \<noteq> 0xFFFFFFFF \<and> t \<noteq> 0
      \<and> w \<noteq> 0 \<and> unat w \<le> length rcd - offset)"
  have unf: "attr_spans rcd offset =
      (if ok then (offset, t, unat w) # attr_spans rcd (offset + unat w) else [])"
    unfolding ok_def t_def w_def by (rule attr_spans_unfold)
  have unf': "parseAttributes_loop rcd offset f =
      (if ok then case dispatch_attr rcd offset t (unat w) f of
             Inl e \<Rightarrow> Inl e
           | Inr f' \<Rightarrow> parseAttributes_loop rcd (offset + unat w) f'
       else Inr f)"
    unfolding ok_def t_def w_def by (rule parseAttributes_loop_unfold)
  show ?case
  proof (cases ok)
    case False
    with unf unf' show ?thesis by simp
  next
    case True
    then have c: "offset + 16 < length rcd" "t \<noteq> 0xFFFFFFFF" "t \<noteq> 0" "w \<noteq> 0"
      "unat w \<le> length rcd - offset"
      unfolding ok_def by blast+
    show ?thesis
    proof (cases "dispatch_attr rcd offset t (unat w) f")
      case (Inl e)
      with True unf unf' show ?thesis by simp
    next
      case (Inr f')
      have "parseAttributes_loop rcd (offset + unat (Uint32 rcd (offset + 4))) f' =
          dispatch_all rcd (attr_spans rcd (offset + unat (Uint32 rcd (offset + 4)))) f'"
      proof (rule 1)
        show "offset + 16 < length rcd" by (rule c(1))
        show "\<not> (Uint32 rcd offset = 0xFFFFFFFF \<or> Uint32 rcd offset = 0)"
          using c(2,3) unfolding t_def by blast
        show "\<not> (Uint32 rcd (offset + 4) = 0
            \<or> length rcd - offset < unat (Uint32 rcd (offset + 4)))"
          using c(4,5) unfolding w_def by (simp add: not_less)
        show "dispatch_attr rcd offset (Uint32 rcd offset) (unat (Uint32 rcd (offset + 4))) f
            = Inr f'"
          using Inr unfolding t_def w_def .
      qed
      then have "parseAttributes_loop rcd (offset + unat w) f' =
          dispatch_all rcd (attr_spans rcd (offset + unat w)) f'"
        unfolding w_def .
      with True Inr unf unf' show ?thesis by simp
    qed
  qed
qed

lemma run_spans_unfold:
  "run_spans data i =
     (if i < length data \<and> data ! i \<noteq> 0
         \<and> i + 1 + run_lenBytes data i + run_offBytes data i \<le> length data
      then (i, run_lenBytes data i, run_offBytes data i) #
           run_spans data (i + 1 + run_lenBytes data i + run_offBytes data i)
      else [])"
  by (subst run_spans.simps) (simp add: not_less)

lemma parseDataRuns_loop_unfold:
  "parseDataRuns_loop data i currentLCN runs =
     (if i < length data \<and> data ! i \<noteq> 0
         \<and> i + 1 + run_lenBytes data i + run_offBytes data i \<le> length data
      then parseDataRuns_loop data (i + 1 + run_lenBytes data i + run_offBytes data i)
             (currentLCN + run_delta data i (run_lenBytes data i) (run_offBytes data i))
             (runs @ [\<lparr>run_Offset =
                         currentLCN + run_delta data i (run_lenBytes data i) (run_offBytes data i),
                       run_Length = run_length data i (run_lenBytes data i)\<rparr>])
      else runs)"
  by (subst parseDataRuns_loop.simps) (simp add: not_less)

lemma run_spans_bounds:
  "(j, lb, ob) \<in> set (run_spans data i) \<Longrightarrow>
     i \<le> j \<and> j + 1 + lb + ob \<le> length data \<and> lb = run_lenBytes data j
     \<and> ob = run_offBytes data j \<and> data ! j \<noteq> 0"
proof (induction data i rule: run_spans.induct)
  case (1 data i)
  define nxt where "nxt = i + 1 + run_lenBytes data i + run_offBytes data i"
  define ok where "ok = (i < length data \<and> data ! i \<noteq> 0 \<and> nxt \<le> length data)"
  have unf: "run_spans data i =
      (if ok then (i, run_lenBytes data i, run_offBytes data i) # run_spans data nxt else [])"
    unfolding ok_def nxt_def by (rule run_spans_unfold)
  show ?case
  proof (cases ok)
    case False
    with 1(2) unf show ?thesis by simp
  next
    case True
    then have c: "i < length data" "data ! i \<noteq> 0" "nxt \<le> length data"
      unfolding ok_def by blast+
    from 1(2) unf True have "(j, lb, ob) = (i, run_lenBytes data i, run_offBytes data i)
        \<or> (j, lb, ob) \<in> set (run_spans data nxt)"
      by simp
    then show ?thesis
    proof
      assume "(j, lb, ob) = (i, run_lenBytes data i, run_offBytes data i)"
      with c show ?thesis unfolding nxt_def by simp
    next
      assume m: "(j, lb, ob) \<in> set (run_spans data nxt)"
      have "i + 1 + run_lenBytes data i + run_offBytes data i \<le> j
          \<and> j + 1 + lb + ob \<le> length data \<and> lb = run_lenBytes data j
          \<and> ob = run_offBytes data j \<and> data ! j \<noteq> 0"
      proof (rule 1(1))
        show "i < length data" by (rule c(1))
        show "data ! i \<noteq> 0" by (rule c(2))
        show "\<not> length data < i + 1 + run_lenBytes data i + run_offBytes data i"
          using c(3) unfolding nxt_def by simp
        show "(j, lb, ob) \<in> set (run_spans data (i + 1 + run_lenBytes data i + run_offBytes data i))"
          using m unfolding nxt_def .
      qed
      then show ?thesis by simp
    qed
  qed
qed

lemma parseDataRuns_loop_spans:
  "parseDataRuns_loop data i currentLCN runs =
     runs @ decode_spans data currentLCN (run_spans data i)"
proof (induction data i currentLCN runs rule: parseDataRuns_loop.induct)
  case (1 data i currentLCN runs)
  define nxt where "nxt = i + 1 + run_lenBytes data i + run_offBytes data i"
  define ok where "ok = (i < length data \<and> data ! i \<noteq> 0 \<and> nxt \<le> length data)"
  define lcn where
    "lcn = currentLCN + run_delta data i (run_lenBytes data i) (run_offBytes data i)"
  define r where "r = \<lparr>run_Offset = lcn, run_Length = run_length data i (run_lenBytes data i)\<rparr>"
  have unf: "run_spans data i =
      (if ok then (i, run_lenBytes data i, run_offBytes data i) # run_spans data nxt else [])"
    unfolding ok_def nxt_def by (rule run_spans_unfold)
  have unf': "parseDataRuns_loop data i currentLCN runs =
      (if ok then parseDataRuns_loop data nxt lcn (runs @ [r]) else runs)"
    unfolding ok_def nxt_def lcn_def r_def by (rule parseDataRuns_loop_unfold)
  show ?case
  proof (cases ok)
    case False
    with unf unf' show ?thesis by simp
  next
    case True
    then have c: "i < length data" "data ! i \<noteq> 0" "nxt \<le> length data"
      unfolding ok_def by blast+
    have "parseDataRuns_loop data (i + 1 + run_lenBytes data i + run_offBytes data i)
           (currentLCN + run_delta data i (run_lenBytes data i) (run_offBytes data i))
           (runs @ [\<lparr>run_Offset =
                       currentLCN + run_delta data i (run_lenBytes data i) (run_offBytes data i),
                     run_Length = run_length data i (run_lenBytes data i)\<rparr>]) =
          (runs @ [\<lparr>run_Offset =
                       currentLCN + run_delta data i (run_lenBytes data i) (run_offBytes data i),
                     run_Length = run_length data i (run_lenBytes data i)\<rparr>]) @
          decode_spans data
            (currentLCN + run_delta data i (run_lenBytes data i) (run_offBytes data i))
            (run_spans data (i + 1 + run_lenBytes data i + run_offBytes data i))"
    proof (rule 1)
      show "i < length data" by (rule c(1))
      show "data ! i \<noteq> 0" by (rule c(2))
      show "\<not> length data < i + 1 + run_lenBytes data i + run_offBytes data i"
        using c(3) unfolding nxt_def by simp
    qed
    then have "parseDataRuns_loop data nxt lcn (runs @ [r]) =
        (runs @ [r]) @ decode_spans data lcn (run_spans data nxt)"
      unfolding nxt_def lcn_def r_def .
    with True unf unf' show ?thesis by (simp add: lcn_def r_def)
  qed
qed

text \<open>
  C9: \<open>parseAttributes\<close> dispatches exactly the attributes listed by \<open>attr_spans\<close>;
  each has a type other than 0 and 0xFFFFFFFF, a positive length, and lies within the
  record. \<open>parseDataRuns\<close> decodes exactly the runs listed by \<open>run_spans\<close>, whose
  \<open>1 + len_bytes + off_bytes\<close> bytes lie within the run-list bytes, and these bytes
  are a suffix of the attribute.
\<close>

theorem ntfs_parsing_bounds:
  "parseAttributes_loop rcd offset f = dispatch_all rcd (attr_spans rcd offset) f
   \<and> (\<forall>(off, ty, len) \<in> set (attr_spans rcd offset).
         ty \<noteq> 0 \<and> ty \<noteq> 0xFFFFFFFF \<and> 0 < len \<and> offset \<le> off \<and> off + len \<le> length rcd)
   \<and> parseDataRuns_loop data i lcn runs = runs @ decode_spans data lcn (run_spans data i)
   \<and> (\<forall>(j, lb, ob) \<in> set (run_spans data i).
         lb = unat (data ! j AND 0x0F) \<and> ob = unat (drop_bit 4 (data ! j))
         \<and> i \<le> j \<and> j + 1 + lb + ob \<le> length data)
   \<and> (\<forall>rs. parseDataRuns attr spare = Inr rs \<longrightarrow>
         rs = [] \<or> (\<exists>k < length attr.
            rs = decode_spans (drop k attr) 0 (run_spans (drop k attr) 0)))"
proof (intro conjI)
  show "parseAttributes_loop rcd offset f = dispatch_all rcd (attr_spans rcd offset) f"
    by (rule parseAttributes_loop_spans)
  show "\<forall>(off, ty, len) \<in> set (attr_spans rcd offset).
         ty \<noteq> 0 \<and> ty \<noteq> 0xFFFFFFFF \<and> 0 < len \<and> offset \<le> off \<and> off + len \<le> length rcd"
    using attr_spans_bounds [of _ _ _ rcd offset] by blast
  show "parseDataRuns_loop data i lcn runs = runs @ decode_spans data lcn (run_spans data i)"
    by (rule parseDataRuns_loop_spans)
  show "\<forall>(j, lb, ob) \<in> set (run_spans data i).
         lb = unat (data ! j AND 0x0F) \<and> ob = unat (drop_bit 4 (data ! j))
         \<and> i \<le> j \<and> j + 1 + lb + ob \<le> length data"
    using run_spans_bounds [of _ _ _ data i]
    unfolding run_lenBytes_def run_offBytes_def by blast
  show "\<forall>rs. parseDataRuns attr spare = Inr rs \<longrightarrow>
         rs = [] \<or> (\<exists>k < length attr.
            rs = decode_spans (drop k attr) 0 (run_spans (drop k attr) 0))"
  proof (intro allI impI)
    fix rs
    assume a: "parseDataRuns attr spare = Inr rs"
    define k where "k = unat (Uint16 (attr @ spare) 32)"
    show "rs = [] \<or> (\<exists>k < length attr.
            rs = decode_spans (drop k attr) 0 (run_spans (drop k attr) 0))"
    proof (cases "k < length attr")
      case False
      with a have "rs = []"
        by (simp add: parseDataRuns_def Let_def k_def split: if_splits)
      then show ?thesis by simp
    next
      case True
      with a have "rs = parseDataRuns_loop (drop k attr) 0 0 []"
        by (simp add: parseDataRuns_def Let_def k_def split: if_splits)
      then have "rs = decode_spans (drop k attr) 0 (run_spans (drop k attr) 0)"
        by (simp add: parseDataRuns_loop_spans)
      with True show ?thesis by blast
    qed
  qed
qed

theorem ntfs_parsing_bounds_witness:
  "attr_spans sparse_record 24 = [(24, 0x80, 80)]
   \<and> 24 + 80 \<le> length sparse_record
   \<and> run_spans (drop 64 (take 80 (drop 24 sparse_record))) 0 = [(0, 1, 1), (3, 1, 0), (5, 1, 1)]
   \<and> 5 + 1 + 1 + 1 \<le> length (drop 64 (take 80 (drop 24 sparse_record)))
   \<and> parseDataRuns (take 80 (drop 24 sparse_record)) (drop 104 sparse_record) = Inr sparse_runs
   \<and> (\<exists>k < 80. sparse_runs = decode_spans (drop k (take 80 (drop 24 sparse_record))) 0
          (run_spans (drop k (take 80 (drop 24 sparse_record))) 0))"
proof -
  have a: "attr_spans sparse_record 24 = [(24, 0x80, 80)]"
    by code_simp
  have b: "run_spans (drop 64 (take 80 (drop 24 sparse_record))) 0 =
      [(0, 1, 1), (3, 1, 0), (5, 1, 1)]"
    by code_simp
  have c: "parseDataRuns (take 80 (drop 24 sparse_record)) (drop 104 sparse_record) =
      Inr sparse_runs"
    by code_simp
  have d: "length (take 80 (drop 24 sparse_record)) = 80"
    by (simp add: sparse_record_def)
  have e: "sparse_runs \<noteq> []"
    by (simp add: sparse_runs_def)
  note t = ntfs_parsing_bounds [of sparse_record 24 undefined
      "drop 64 (take 80 (drop 24 sparse_record))" 0 0 "[]"
      "take 80 (drop 24 sparse_record)" "drop 104 sparse_record"]
  have m1: "(24, 0x80, 80) \<in> set (attr_spans sparse_record 24)"
    unfolding a by simp
  have m2: "(5, 1, 1) \<in> set (run_spans (drop 64 (take 80 (drop 24 sparse_record))) 0)"
    unfolding b by simp
  note t2 = t [THEN conjunct2, THEN conjunct1]
  note t4 = t [THEN conjunct2, THEN conjunct2, THEN conjunct2, THEN conjunct1]
  note t5 = t [THEN conjunct2, THEN conjunct2, THEN conjunct2, THEN conjunct2]
  from bspec [OF t2 m1] have f: "24 + 80 \<le> length sparse_record" by simp
  from bspec [OF t4 m2]
  have g: "5 + 1 + 1 + 1 \<le> length (drop 64 (take 80 (drop 24 sparse_record)))"
    by simp
  from t5 [rule_format, OF c] e
  have "\<exists>k < length (take 80 (drop 24 sparse_record)). sparse_runs =
      decode_spans (drop k (take 80 (drop 24 sparse_record))) 0
          (run_spans (drop k (take 80 (drop 24 sparse_record))) 0)"
    by (simp only: simp_thms)
  then have h: "\<exists>k < 80. sparse_runs =
      decode_spans (drop k (take 80 (drop 24 sparse_record))) 0
          (run_spans (drop k (take 80 (drop 24 sparse_record))) 0)"
    unfolding d .
  from a b c f g h show ?thesis by (intro conjI)
qed

end
